theory Spec2Isabelle
  imports Main "HOL-Library.AList"
begin

section \<open>The dispatcher of \<open>multipledispatch/dispatcher.py\<close>\<close>

text \<open>
  The embedding follows \<open>class Dispatcher\<close>. A type of the host language is an opaque
  value of a type variable \<open>'ty\<close>; a signature and an argument-type tuple are lists of
  types (Python tuples); an implementation is an opaque value of \<open>'impl\<close> until
  \<open>__call__\<close> applies it. The builtins \<open>issubclass\<close>, \<open>type\<close> and the attribute
  \<open>cls.__name__\<close> are parameters of the functions that use them.
\<close>

subsection \<open>Exceptions and warnings\<close>

text \<open>
  The exceptions that the methods of the class raise themselves:
  \<open>NotImplementedError\<close> (the last line of \<open>resolve\<close>), \<open>AttributeError\<close> (reading the
  slot \<open>ordering\<close> before any assignment to it) and \<open>KeyError\<close> (\<open>self.funcs[signature]\<close>
  on a missing key).
\<close>

datatype error = NotImplementedError | AttributeError | KeyError

text \<open>\<open>warn(text, AmbiguityWarning)\<close>: the category with its message.\<close>

datatype warning = AmbiguityWarning string

subsection \<open>The state of a dispatcher\<close>

text \<open>
  \<open>__slots__ = 'name', 'funcs', 'ordering', '_cache'\<close>. The dictionary \<open>funcs\<close> is an
  association list in insertion order with unique keys, since it is handed as a whole to
  \<open>ordering\<close> and \<open>ambiguities\<close>, which iterate over it. The dictionary \<open>_cache\<close> is only
  looked up, stored into and cleared, so it is a map. The slot \<open>ordering\<close> is not assigned
  by \<open>__init__\<close>: \<open>None\<close> is the unset slot, whose read raises \<open>AttributeError\<close>.
\<close>

record ('ty, 'impl) dispatcher =
  name :: string
  funcs :: "('ty list \<times> 'impl) list"
  ordering :: "'ty list list option"
  cache :: "'ty list \<rightharpoonup> 'impl"

text \<open>
  \<open>from .conflict import ordering, ambiguities, super_signature\<close>: the module
  \<open>conflict\<close> is not part of the sources at hand, so the three imported functions are a
  parameter of \<open>add\<close>. An ambiguous pair is a pair of signatures; \<open>ambiguities\<close> returns a
  collection of pairs, a list here (the code tests it for emptiness and iterates over it).
\<close>

record ('ty, 'impl) conflict =
  ordering_fn :: "('ty list \<times> 'impl) list \<Rightarrow> 'ty list list"
  ambiguities_fn :: "('ty list \<times> 'impl) list \<Rightarrow> ('ty list \<times> 'ty list) list"
  super_signature :: "'ty list \<times> 'ty list \<Rightarrow> 'ty list"

subsection \<open>\<open>__init__\<close>\<close>

definition init :: "string \<Rightarrow> ('ty, 'impl) dispatcher" where
  "init nm = \<lparr>name = nm, funcs = [], ordering = None, cache = Map.empty\<rparr>"

subsection \<open>\<open>str_signature\<close> and \<open>warning_text\<close>\<close>

text \<open>\<open>sep.join(xs)\<close> on a list of strings.\<close>

fun join :: "string \<Rightarrow> string list \<Rightarrow> string" where
  "join sep [] = []"
| "join sep [x] = x"
| "join sep (x # y # ys) = x @ sep @ join sep (y # ys)"

definition str_signature :: "('ty \<Rightarrow> string) \<Rightarrow> 'ty list \<Rightarrow> string" where
  "str_signature cls_name sig = join '', '' (map cls_name sig)"

definition warning_text ::
  "('ty \<Rightarrow> string) \<Rightarrow> ('ty list \<times> 'ty list \<Rightarrow> 'ty list) \<Rightarrow> string \<Rightarrow>
   ('ty list \<times> 'ty list) list \<Rightarrow> string" where
  "warning_text cls_name super_sig nm amb =
     ''\<newline>Ambiguities exist in dispatched function '' @ nm @ ''\<newline>\<newline>''
     @ ''The following signatures may result in ambiguous behavior:\<newline>''
     @ concat (map (\<lambda>pair. [CHR 0x09]
                 @ join '', '' (map (\<lambda>s. ''['' @ str_signature cls_name s @ '']'')
                                    [fst pair, snd pair])
                 @ ''\<newline>'') amb)
     @ ''\<newline>\<newline>Consider making the following additions:\<newline>\<newline>''
     @ join ''\<newline>\<newline>''
         (map (\<lambda>s. ''@dispatch('' @ str_signature cls_name (super_sig s)
                    @ '')\<newline>def '' @ nm @ ''(...)'') amb)"

subsection \<open>\<open>add\<close>\<close>

text \<open>
  \<open>self.funcs[signature] = func\<close> replaces the value of a key in place and appends a new
  key at the end, which is \<open>AList.update\<close>.

  \<open>warn(text, AmbiguityWarning)\<close> consults the warnings filter of the host: under the
  action \<open>error\<close> it raises the warning as an exception, under every other action it
  returns. The filter is the parameter \<open>raises\<close>, true of the warnings that it turns into
  exceptions. The call of \<open>warn\<close> comes after the assignments to \<open>funcs\<close> and \<open>ordering\<close>
  and before \<open>self._cache.clear()\<close>: when it raises, \<open>add\<close> is left with the registry and
  the ordering written and the cache as it was.

  The result is \<open>Inl w\<close> when \<open>add\<close> raises the warning \<open>w\<close>, \<open>Inr (Some w)\<close> when it
  returns after the warning \<open>w\<close> has been emitted, and \<open>Inr None\<close> when it returns
  without a call of \<open>warn\<close>; the state that the call leaves is beside it in every case.
\<close>

definition add ::
  "('ty, 'impl) conflict \<Rightarrow> ('ty \<Rightarrow> string) \<Rightarrow> (warning \<Rightarrow> bool)
   \<Rightarrow> ('ty, 'impl) dispatcher \<Rightarrow> 'ty list \<Rightarrow> 'impl
   \<Rightarrow> (warning + warning option) \<times> ('ty, 'impl) dispatcher" where
  "add cm cls_name raises d signature func =
     (let funcs' = AList.update signature func (funcs d);
          d1 = d\<lparr>funcs := funcs', ordering := Some (ordering_fn cm funcs')\<rparr>;
          amb = ambiguities_fn cm funcs'
      in if amb \<noteq> [] then
           (let w = AmbiguityWarning
                      (warning_text cls_name (super_signature cm) (name d) amb)
            in if raises w then (Inl w, d1)
               else (Inr (Some w), d1\<lparr>cache := Map.empty\<rparr>))
         else (Inr None, d1\<lparr>cache := Map.empty\<rparr>))"

subsection \<open>\<open>resolve\<close>\<close>

text \<open>
  The test of the loop, \<open>len(signature) == n and all(map(issubclass, types, signature))\<close>:
  \<open>and\<close> evaluates its second operand only for equal lengths, where \<open>map\<close> pairs the two
  tuples position by position.
\<close>

definition matches :: "('ty \<Rightarrow> 'ty \<Rightarrow> bool) \<Rightarrow> nat \<Rightarrow> 'ty list \<Rightarrow> 'ty list \<Rightarrow> bool" where
  "matches issubclass n types signature \<longleftrightarrow>
     length signature = n \<and> list_all (\<lambda>(t, s). issubclass t s) (zip types signature)"

text \<open>
  The loop \<open>for signature in self.ordering\<close>, with the \<open>raise NotImplementedError()\<close> that
  follows it. The state is returned in every case, so that what a failing call leaves
  behind can be stated.
\<close>

fun scan ::
  "('ty \<Rightarrow> 'ty \<Rightarrow> bool) \<Rightarrow> ('ty, 'impl) dispatcher \<Rightarrow> 'ty list \<Rightarrow> 'ty list list
   \<Rightarrow> (error + 'impl) \<times> ('ty, 'impl) dispatcher" where
  "scan issubclass d types [] = (Inl NotImplementedError, d)"
| "scan issubclass d types (signature # rest) =
     (if matches issubclass (length types) types signature then
        (case map_of (funcs d) signature of
           None \<Rightarrow> (Inl KeyError, d)
         | Some result \<Rightarrow> (Inr result, d\<lparr>cache := (cache d)(types \<mapsto> result)\<rparr>))
      else scan issubclass d types rest)"

definition resolve ::
  "('ty \<Rightarrow> 'ty \<Rightarrow> bool) \<Rightarrow> ('ty, 'impl) dispatcher \<Rightarrow> 'ty list
   \<Rightarrow> (error + 'impl) \<times> ('ty, 'impl) dispatcher" where
  "resolve issubclass d types =
     (case cache d types of
        Some f \<Rightarrow> (Inr f, d)
      | None \<Rightarrow>
          (case map_of (funcs d) types of
             Some f \<Rightarrow> (Inr f, d\<lparr>cache := (cache d)(types \<mapsto> f)\<rparr>)
           | None \<Rightarrow>
               (case ordering d of
                  None \<Rightarrow> (Inl AttributeError, d)
                | Some ord \<Rightarrow> scan issubclass d types ord)))"

subsection \<open>\<open>__call__\<close>\<close>

text \<open>
  An implementation is a function of the positional arguments and the keyword arguments
  (a dictionary from names to values) that returns a value (\<open>Inr\<close>) or raises an
  exception of its own (\<open>Inl\<close>). It is taken to leave the dispatcher alone. What a call
  raises is either an exception of \<open>resolve\<close> (\<open>Inl (Inl e)\<close>) or the exception of the
  implementation (\<open>Inl (Inr x)\<close>).
\<close>

type_synonym ('a, 'x, 'v) implementation = "'a list \<Rightarrow> (string \<times> 'a) list \<Rightarrow> 'x + 'v"

definition call ::
  "('a \<Rightarrow> 'ty) \<Rightarrow> ('ty \<Rightarrow> 'ty \<Rightarrow> bool) \<Rightarrow> ('ty, ('a, 'x, 'v) implementation) dispatcher
   \<Rightarrow> 'a list \<Rightarrow> (string \<times> 'a) list
   \<Rightarrow> ((error + 'x) + 'v) \<times> ('ty, ('a, 'x, 'v) implementation) dispatcher" where
  "call type_of issubclass d args kwargs =
     (let types = map type_of args in
      case resolve issubclass d types of
        (Inl e, d') \<Rightarrow> (Inl (Inl e), d')
      | (Inr func, d') \<Rightarrow>
          (case func args kwargs of
             Inl x \<Rightarrow> (Inl (Inr x), d')
           | Inr v \<Rightarrow> (Inr v, d')))"

subsection \<open>\<open>resolve\<close> with probes\<close>

text \<open>
  The same method with two counters beside its result: the number of entries of
  \<open>self.ordering\<close> that the loop visits, and the number of calls of \<open>issubclass\<close>. The
  calls are counted as Python 3 makes them: \<open>map\<close> is lazy and \<open>all\<close> stops at the first
  false value. A call that does not reach the loop counts nothing.
\<close>

fun all_issubclass_probed :: "('ty \<Rightarrow> 'ty \<Rightarrow> bool) \<Rightarrow> 'ty list \<Rightarrow> 'ty list \<Rightarrow> bool \<times> nat" where
  "all_issubclass_probed issubclass (t # ts) (s # ss) =
     (if issubclass t s
      then (case all_issubclass_probed issubclass ts ss of (b, k) \<Rightarrow> (b, Suc k))
      else (False, 1))"
| "all_issubclass_probed issubclass [] ss = (True, 0)"
| "all_issubclass_probed issubclass ts [] = (True, 0)"

definition matches_probed ::
  "('ty \<Rightarrow> 'ty \<Rightarrow> bool) \<Rightarrow> nat \<Rightarrow> 'ty list \<Rightarrow> 'ty list \<Rightarrow> bool \<times> nat" where
  "matches_probed issubclass n types signature =
     (if length signature = n then all_issubclass_probed issubclass types signature
      else (False, 0))"

fun scan_probed ::
  "('ty \<Rightarrow> 'ty \<Rightarrow> bool) \<Rightarrow> ('ty, 'impl) dispatcher \<Rightarrow> 'ty list \<Rightarrow> 'ty list list
   \<Rightarrow> ((error + 'impl) \<times> ('ty, 'impl) dispatcher) \<times> nat \<times> nat" where
  "scan_probed issubclass d types [] = ((Inl NotImplementedError, d), 0, 0)"
| "scan_probed issubclass d types (signature # rest) =
     (case matches_probed issubclass (length types) types signature of
        (True, q) \<Rightarrow>
          ((case map_of (funcs d) signature of
              None \<Rightarrow> (Inl KeyError, d)
            | Some result \<Rightarrow> (Inr result, d\<lparr>cache := (cache d)(types \<mapsto> result)\<rparr>)),
           1, q)
      | (False, q) \<Rightarrow>
          (case scan_probed issubclass d types rest of
             (r, visited, queries) \<Rightarrow> (r, Suc visited, q + queries)))"

definition resolve_probed ::
  "('ty \<Rightarrow> 'ty \<Rightarrow> bool) \<Rightarrow> ('ty, 'impl) dispatcher \<Rightarrow> 'ty list
   \<Rightarrow> ((error + 'impl) \<times> ('ty, 'impl) dispatcher) \<times> nat \<times> nat" where
  "resolve_probed issubclass d types =
     (case cache d types of
        Some f \<Rightarrow> ((Inr f, d), 0, 0)
      | None \<Rightarrow>
          (case map_of (funcs d) types of
             Some f \<Rightarrow> ((Inr f, d\<lparr>cache := (cache d)(types \<mapsto> f)\<rparr>), 0, 0)
           | None \<Rightarrow>
               (case ordering d of
                  None \<Rightarrow> ((Inl AttributeError, d), 0, 0)
                | Some ord \<Rightarrow> scan_probed issubclass d types ord)))"

subsection \<open>The states a dispatcher can be in\<close>

text \<open>
  A dispatcher is created by \<open>__init__\<close> and changed by \<open>add\<close> (also through \<open>register\<close>)
  and by \<open>resolve\<close> (also through \<open>__call__\<close>), in any order. A call of \<open>add\<close> that
  raises changes it too, and the warnings filter may differ from one call to the next.
  Beside the state, \<open>reachable\<close> keeps the list of the pairs of a signature and an
  implementation that \<open>add\<close> has been called with so far, the latest first.
\<close>

inductive reachable ::
  "('ty, 'impl) conflict \<Rightarrow> ('ty \<Rightarrow> string) \<Rightarrow> ('ty \<Rightarrow> 'ty \<Rightarrow> bool)
   \<Rightarrow> ('ty, 'impl) dispatcher \<Rightarrow> ('ty list \<times> 'impl) list \<Rightarrow> bool"
  for cm :: "('ty, 'impl) conflict" and cls_name :: "'ty \<Rightarrow> string"
    and issubclass :: "'ty \<Rightarrow> 'ty \<Rightarrow> bool" where
  reach_init: "reachable cm cls_name issubclass (init nm) []"
| reach_add:
    "reachable cm cls_name issubclass d h
     \<Longrightarrow> reachable cm cls_name issubclass
           (snd (add cm cls_name raises d signature func)) ((signature, func) # h)"
| reach_resolve:
    "reachable cm cls_name issubclass d h
     \<Longrightarrow> reachable cm cls_name issubclass (snd (resolve issubclass d types)) h"

subsection \<open>The specificity order and the contract of \<open>ordering\<close>\<close>

text \<open>
  Modelled from the spec: the module \<open>conflict\<close> is missing, and with it the order on
  signatures. \<open>A \<le> B\<close> holds for two signatures of equal length when at every position
  the oracle reports the type of \<open>A\<close> a subtype-or-equal of the type of \<open>B\<close>.
\<close>

definition sig_le :: "('ty \<Rightarrow> 'ty \<Rightarrow> bool) \<Rightarrow> 'ty list \<Rightarrow> 'ty list \<Rightarrow> bool" where
  "sig_le issubclass a b \<longleftrightarrow> length a = length b \<and> list_all2 issubclass a b"

text \<open>
  Modelled from the spec: \<open>A\<close> is strictly more specific than \<open>B\<close>: \<open>A \<le> B\<close> and not
  \<open>B \<le> A\<close>. Where the oracle is antisymmetric, as the spec takes it to be, this is
  \<open>A \<le> B\<close> and \<open>A \<noteq> B\<close>.
\<close>

definition strictly_more_specific ::
  "('ty \<Rightarrow> 'ty \<Rightarrow> bool) \<Rightarrow> 'ty list \<Rightarrow> 'ty list \<Rightarrow> bool" where
  "strictly_more_specific issubclass a b \<longleftrightarrow>
     sig_le issubclass a b \<and> \<not> sig_le issubclass b a"

text \<open>
  Modelled from the spec: the result of the missing function \<open>ordering\<close> is a sequence of
  all registered signatures in which a signature that is strictly more specific than
  another one appears before it.
\<close>

fun linearized :: "('ty \<Rightarrow> 'ty \<Rightarrow> bool) \<Rightarrow> 'ty list list \<Rightarrow> bool" where
  "linearized issubclass [] = True"
| "linearized issubclass (x # xs) \<longleftrightarrow>
     (\<forall>y \<in> set xs. \<not> strictly_more_specific issubclass y x) \<and> linearized issubclass xs"

definition valid_ordering ::
  "('ty \<Rightarrow> 'ty \<Rightarrow> bool) \<Rightarrow> ('ty list \<times> 'impl) list \<Rightarrow> 'ty list list \<Rightarrow> bool" where
  "valid_ordering issubclass fs ord \<longleftrightarrow>
     set ord = set (map fst fs) \<and> linearized issubclass ord"

text \<open>
  A registered signature that \<open>resolve\<close> can select for an argument-type tuple: the tuple
  itself, or a signature of its length that dominates it position by position.
\<close>

definition candidate :: "('ty \<Rightarrow> 'ty \<Rightarrow> bool) \<Rightarrow> 'ty list \<Rightarrow> 'ty list \<Rightarrow> bool" where
  "candidate issubclass types signature \<longleftrightarrow>
     signature = types \<or> matches issubclass (length types) types signature"

text \<open>
  The invariant of the registry and the cache with respect to the list of the
  registrations made so far: a registered pair is in the list, and an implementation
  stored in the cache under a tuple is in the list with a signature that \<open>resolve\<close> can
  select for the tuple. The pair of a cache entry need not be registered any more.
\<close>

definition cache_from ::
  "('ty \<Rightarrow> 'ty \<Rightarrow> bool) \<Rightarrow> ('ty list \<times> 'impl) list \<Rightarrow> ('ty, 'impl) dispatcher \<Rightarrow> bool" where
  "cache_from issubclass h d \<longleftrightarrow>
     set (funcs d) \<subseteq> set h
     \<and> (\<forall>types f. cache d types = Some f \<longrightarrow>
           (\<exists>s. (s, f) \<in> set h \<and> candidate issubclass types s))"

subsection \<open>A conflict module after the spec\<close>

text \<open>
  Modelled from the spec: the missing function \<open>ordering\<close>. Each signature, in registration
  order, goes before the first signature already placed that it is strictly more
  specific than, and to the end when there is none.
\<close>

fun insert_signature ::
  "('ty \<Rightarrow> 'ty \<Rightarrow> bool) \<Rightarrow> 'ty list \<Rightarrow> 'ty list list \<Rightarrow> 'ty list list" where
  "insert_signature issubclass s [] = [s]"
| "insert_signature issubclass s (x # xs) =
     (if strictly_more_specific issubclass s x then s # x # xs
      else x # insert_signature issubclass s xs)"

definition ordering_spec ::
  "('ty \<Rightarrow> 'ty \<Rightarrow> bool) \<Rightarrow> ('ty list \<times> 'impl) list \<Rightarrow> 'ty list list" where
  "ordering_spec issubclass fs =
     foldl (\<lambda>placed s. insert_signature issubclass s placed) [] (map fst fs)"

text \<open>
  Modelled from the spec: the missing function \<open>ambiguities\<close>, over a finite list of all
  types. A pair of distinct signatures of equal length is ambiguous when neither is
  \<open>\<le>\<close> the other and at every position some type is a subtype-or-equal of both.
\<close>

fun pairs_of :: "'a list \<Rightarrow> ('a \<times> 'a) list" where
  "pairs_of [] = []"
| "pairs_of (x # xs) = map (Pair x) xs @ pairs_of xs"

definition ambiguous :: "('ty \<Rightarrow> 'ty \<Rightarrow> bool) \<Rightarrow> 'ty list \<Rightarrow> 'ty list \<times> 'ty list \<Rightarrow> bool" where
  "ambiguous issubclass universe p \<longleftrightarrow>
     length (fst p) = length (snd p) \<and> fst p \<noteq> snd p
     \<and> \<not> sig_le issubclass (fst p) (snd p) \<and> \<not> sig_le issubclass (snd p) (fst p)
     \<and> list_all2 (\<lambda>x y. \<exists>t \<in> set universe. issubclass t x \<and> issubclass t y) (fst p) (snd p)"

definition ambiguities_spec ::
  "('ty \<Rightarrow> 'ty \<Rightarrow> bool) \<Rightarrow> 'ty list \<Rightarrow> ('ty list \<times> 'impl) list \<Rightarrow> ('ty list \<times> 'ty list) list" where
  "ambiguities_spec issubclass universe fs =
     filter (ambiguous issubclass universe) (pairs_of (map fst fs))"

text \<open>
  Modelled from the spec: the missing function \<open>super_signature\<close>: at each position the
  most specific common ancestor of the two types, and the root of the hierarchy where
  the list of all types has none.
\<close>

definition common_ancestor :: "('ty \<Rightarrow> 'ty \<Rightarrow> bool) \<Rightarrow> 'ty list \<Rightarrow> 'ty \<Rightarrow> 'ty \<Rightarrow> 'ty \<Rightarrow> 'ty" where
  "common_ancestor issubclass universe root x y =
     (case find (\<lambda>u. issubclass x u \<and> issubclass y u
                     \<and> (\<forall>v \<in> set universe. issubclass x v \<and> issubclass y v \<longrightarrow> issubclass u v))
                universe of
        Some u \<Rightarrow> u
      | None \<Rightarrow> root)"

definition super_signature_spec ::
  "('ty \<Rightarrow> 'ty \<Rightarrow> bool) \<Rightarrow> 'ty list \<Rightarrow> 'ty \<Rightarrow> 'ty list \<times> 'ty list \<Rightarrow> 'ty list" where
  "super_signature_spec issubclass universe root p =
     map (\<lambda>(x, y). common_ancestor issubclass universe root x y) (zip (fst p) (snd p))"

definition conflict_spec ::
  "('ty \<Rightarrow> 'ty \<Rightarrow> bool) \<Rightarrow> 'ty list \<Rightarrow> 'ty \<Rightarrow> ('ty, 'impl) conflict" where
  "conflict_spec issubclass universe root =
     \<lparr>ordering_fn = ordering_spec issubclass,
      ambiguities_fn = ambiguities_spec issubclass universe,
      super_signature = super_signature_spec issubclass universe root\<rparr>"

subsection \<open>A small host type system\<close>

text \<open>
  The hierarchy of the spec's scenarios, for the closed instances below: \<open>Integer\<close> is
  a subtype of \<open>Number\<close>, and \<open>Object\<close> is the root.
\<close>

datatype ty = Object | Number | Integer | Text

definition universe :: "ty list" where
  "universe = [Object, Number, Integer, Text]"

definition is_subclass :: "ty \<Rightarrow> ty \<Rightarrow> bool" where
  "is_subclass a b \<longleftrightarrow> a = b \<or> b = Object \<or> (a = Integer \<and> b = Number)"

fun class_name :: "ty \<Rightarrow> string" where
  "class_name Object = ''object''"
| "class_name Number = ''Number''"
| "class_name Integer = ''int''"
| "class_name Text = ''str''"

datatype val = IntV int | TextV string

fun type_of_val :: "val \<Rightarrow> ty" where
  "type_of_val (IntV i) = Integer"
| "type_of_val (TextV s) = Text"

abbreviation host_conflict :: "(ty, 'impl) conflict" where
  "host_conflict \<equiv> conflict_spec is_subclass universe Object"

text \<open>
  Two warnings filters: \<open>warnings.simplefilter('error')\<close>, under which every warning is
  raised, and a filter under which none is.
\<close>

definition filter_error :: "warning \<Rightarrow> bool" where
  "filter_error w = True"

definition filter_default :: "warning \<Rightarrow> bool" where
  "filter_default w = False"

text \<open>
  Two states for the closed instances, both built under the filter \<open>error\<close>. In the
  first, \<open>(Number, Number)\<close> and \<open>(Integer, Number)\<close> are registered, which are not
  ambiguous. In the second, \<open>(Number, Integer)\<close> has been added, which is ambiguous with
  \<open>(Integer, Number)\<close>: from then on every call of \<open>add\<close> finds an ambiguity.
\<close>

definition base_registry :: "(ty, nat) dispatcher" where
  "base_registry =
     snd (add host_conflict class_name filter_error
            (snd (add host_conflict class_name filter_error (init ''f'') [Number, Number] 0))
            [Integer, Number] 1)"

definition ambiguous_registry :: "(ty, nat) dispatcher" where
  "ambiguous_registry =
     snd (add host_conflict class_name filter_error base_registry [Number, Integer] 2)"

text \<open>The implementation of the docstrings, \<open>def f(x): return x + 1\<close>, on these values.\<close>

definition inc :: "(val, string, val) implementation" where
  "inc args kwargs = (case args of [IntV x] \<Rightarrow> Inr (IntV (x + 1)) | _ \<Rightarrow> Inl ''TypeError'')"

section \<open>Properties of \<open>resolve\<close>\<close>

lemma matches_iff_pointwise:
  "matches issubclass (length types) types s \<longleftrightarrow>
     length s = length types \<and> (\<forall>i < length types. issubclass (types ! i) (s ! i))"
  by (auto simp: matches_def list_all_length)

text \<open>A signature of another length matches no tuple, whatever the oracle says.\<close>

lemma matches_length:
  "length s \<noteq> length types \<Longrightarrow> \<not> matches issubclass (length types) types s"
  by (simp add: matches_def)

lemma scan_state_on_error:
  "scan issubclass d types ord = (Inl e, d') \<Longrightarrow> d' = d"
  by (induction ord) (auto split: if_splits option.splits)

lemma scan_state_on_success:
  "scan issubclass d types ord = (Inr f, d') \<Longrightarrow> d' = d\<lparr>cache := (cache d)(types \<mapsto> f)\<rparr>"
  by (induction ord) (auto split: if_splits option.splits)

lemma scan_first_match:
  assumes "\<forall>s' \<in> set pre. \<not> matches issubclass (length types) types s'"
    and "matches issubclass (length types) types s"
    and "map_of (funcs d) s = Some f"
  shows "scan issubclass d types (pre @ s # post)
         = (Inr f, d\<lparr>cache := (cache d)(types \<mapsto> f)\<rparr>)"
  using assms by (induction pre) auto

lemma scan_no_match:
  "\<forall>s \<in> set ord. \<not> matches issubclass (length types) types s
   \<Longrightarrow> scan issubclass d types ord = (Inl NotImplementedError, d)"
  by (induction ord) auto

lemma resolve_state_on_error:
  "resolve issubclass d types = (Inl e, d') \<Longrightarrow> d' = d"
  by (auto simp: resolve_def split: option.splits dest: scan_state_on_error)

lemma scan_success_split:
  "scan issubclass d types ord = (Inr f, d')
   \<Longrightarrow> \<exists>pre s post. ord = pre @ s # post
         \<and> (\<forall>s' \<in> set pre. \<not> matches issubclass (length types) types s')
         \<and> matches issubclass (length types) types s \<and> map_of (funcs d) s = Some f"
proof (induction ord)
  case Nil
  then show ?case by simp
next
  case (Cons x ord)
  show ?case
  proof (cases "matches issubclass (length types) types x")
    case True
    with Cons.prems have "map_of (funcs d) x = Some f"
      by (auto split: option.splits)
    with True have "x # ord = [] @ x # ord
         \<and> (\<forall>s' \<in> set []. \<not> matches issubclass (length types) types s')
         \<and> matches issubclass (length types) types x \<and> map_of (funcs d) x = Some f"
      by simp
    then show ?thesis by blast
  next
    case False
    with Cons obtain pre s post where "ord = pre @ s # post"
      "\<forall>s' \<in> set pre. \<not> matches issubclass (length types) types s'"
      "matches issubclass (length types) types s" "map_of (funcs d) s = Some f"
      by auto
    with False have "x # ord = (x # pre) @ s # post
         \<and> (\<forall>s' \<in> set (x # pre). \<not> matches issubclass (length types) types s')
         \<and> matches issubclass (length types) types s \<and> map_of (funcs d) s = Some f"
      by simp
    then show ?thesis by blast
  qed
qed

lemma resolve_success_cases:
  assumes "fst (resolve issubclass d types) = Inr f"
  shows "cache d types = Some f
     \<or> (cache d types = None \<and> map_of (funcs d) types = Some f)
     \<or> (cache d types = None \<and> map_of (funcs d) types = None
         \<and> (\<exists>pre s post. ordering d = Some (pre @ s # post)
              \<and> (\<forall>s' \<in> set pre. \<not> (length s' = length types
                                    \<and> (\<forall>i < length types. issubclass (types ! i) (s' ! i))))
              \<and> length s = length types \<and> (\<forall>i < length types. issubclass (types ! i) (s ! i))
              \<and> map_of (funcs d) s = Some f))"
proof (cases "cache d types")
  case (Some g)
  with assms show ?thesis by (simp add: resolve_def)
next
  case None
  show ?thesis
  proof (cases "map_of (funcs d) types")
    case (Some g)
    with None assms show ?thesis by (simp add: resolve_def)
  next
    case unreg: None
    show ?thesis
    proof (cases "ordering d")
      case None
      with \<open>cache d types = None\<close> unreg assms show ?thesis by (simp add: resolve_def)
    next
      case (Some ord)
      with \<open>cache d types = None\<close> unreg assms
      have "fst (scan issubclass d types ord) = Inr f"
        by (simp add: resolve_def)
      then obtain d' where "scan issubclass d types ord = (Inr f, d')"
        by (cases "scan issubclass d types ord") auto
      from scan_success_split [OF this] Some \<open>cache d types = None\<close> unreg
      show ?thesis
        unfolding matches_iff_pointwise by blast
    qed
  qed
qed

text \<open>
  C1. The three steps of the resolution algorithm. A tuple that is a key of the cache
  resolves to the cached implementation and the state stays as it is. Otherwise a tuple
  that is a registered signature resolves to its implementation, whatever the ordering
  holds, and the implementation is stored in the cache under the tuple. Otherwise, when
  the ordering is \<open>pre @ s # post\<close>, no signature of \<open>pre\<close> has the length of the tuple and
  dominates it position by position, and \<open>s\<close> has and does, the tuple resolves to the
  implementation registered for \<open>s\<close>, which is stored in the cache under the tuple.
  Conversely, an implementation that \<open>resolve\<close> returns is the result of one of the
  three steps.
\<close>

theorem resolve_algorithm:
  "(cache d types = Some f \<longrightarrow> resolve issubclass d types = (Inr f, d))
   \<and> (cache d types = None \<and> map_of (funcs d) types = Some f
        \<longrightarrow> resolve issubclass d types = (Inr f, d\<lparr>cache := (cache d)(types \<mapsto> f)\<rparr>))
   \<and> (cache d types = None \<and> map_of (funcs d) types = None
        \<and> ordering d = Some (pre @ s # post)
        \<and> (\<forall>s' \<in> set pre. \<not> (length s' = length types
                               \<and> (\<forall>i < length types. issubclass (types ! i) (s' ! i))))
        \<and> length s = length types \<and> (\<forall>i < length types. issubclass (types ! i) (s ! i))
        \<and> map_of (funcs d) s = Some f
        \<longrightarrow> resolve issubclass d types = (Inr f, d\<lparr>cache := (cache d)(types \<mapsto> f)\<rparr>))
   \<and> (fst (resolve issubclass d types) = Inr g
        \<longrightarrow> cache d types = Some g
          \<or> (cache d types = None \<and> map_of (funcs d) types = Some g)
          \<or> (cache d types = None \<and> map_of (funcs d) types = None
              \<and> (\<exists>pre s post. ordering d = Some (pre @ s # post)
                   \<and> (\<forall>s' \<in> set pre. \<not> (length s' = length types
                          \<and> (\<forall>i < length types. issubclass (types ! i) (s' ! i))))
                   \<and> length s = length types
                   \<and> (\<forall>i < length types. issubclass (types ! i) (s ! i))
                   \<and> map_of (funcs d) s = Some g)))"
proof (intro conjI impI)
  assume "cache d types = Some f"
  then show "resolve issubclass d types = (Inr f, d)"
    by (simp add: resolve_def)
next
  assume "cache d types = None \<and> map_of (funcs d) types = Some f"
  then show "resolve issubclass d types = (Inr f, d\<lparr>cache := (cache d)(types \<mapsto> f)\<rparr>)"
    by (simp add: resolve_def)
next
  assume a: "cache d types = None \<and> map_of (funcs d) types = None
        \<and> ordering d = Some (pre @ s # post)
        \<and> (\<forall>s' \<in> set pre. \<not> (length s' = length types
                               \<and> (\<forall>i < length types. issubclass (types ! i) (s' ! i))))
        \<and> length s = length types \<and> (\<forall>i < length types. issubclass (types ! i) (s ! i))
        \<and> map_of (funcs d) s = Some f"
  then have "scan issubclass d types (pre @ s # post)
      = (Inr f, d\<lparr>cache := (cache d)(types \<mapsto> f)\<rparr>)"
    by (intro scan_first_match) (simp_all add: matches_iff_pointwise)
  with a show "resolve issubclass d types = (Inr f, d\<lparr>cache := (cache d)(types \<mapsto> f)\<rparr>)"
    by (simp add: resolve_def)
next
  assume "fst (resolve issubclass d types) = Inr g"
  then show "cache d types = Some g
          \<or> (cache d types = None \<and> map_of (funcs d) types = Some g)
          \<or> (cache d types = None \<and> map_of (funcs d) types = None
              \<and> (\<exists>pre s post. ordering d = Some (pre @ s # post)
                   \<and> (\<forall>s' \<in> set pre. \<not> (length s' = length types
                          \<and> (\<forall>i < length types. issubclass (types ! i) (s' ! i))))
                   \<and> length s = length types
                   \<and> (\<forall>i < length types. issubclass (types ! i) (s ! i))
                   \<and> map_of (funcs d) s = Some g))"
    by (rule resolve_success_cases)
qed

text \<open>
  The three steps on a dispatcher with \<open>(Number,)\<close> and \<open>(Text,)\<close> registered: a cached
  tuple, a registered tuple that is last in the ordering, and \<open>(Integer,)\<close>, which the
  scan resolves to the implementation of \<open>(Number,)\<close> after skipping \<open>(Text,)\<close>.
\<close>

theorem resolve_algorithm_witness:
  "resolve is_subclass
     \<lparr>name = ''f'', funcs = [([Number], 1::nat), ([Text], 2)],
      ordering = Some [[Text], [Number]], cache = [[Text] \<mapsto> 2]\<rparr> [Text]
   = (Inr 2, \<lparr>name = ''f'', funcs = [([Number], 1::nat), ([Text], 2)],
      ordering = Some [[Text], [Number]], cache = [[Text] \<mapsto> 2]\<rparr>)
   \<and> resolve is_subclass
     \<lparr>name = ''f'', funcs = [([Number], 1::nat), ([Text], 2)],
      ordering = Some [[Text], [Number]], cache = Map.empty\<rparr> [Number]
   = (Inr 1, \<lparr>name = ''f'', funcs = [([Number], 1::nat), ([Text], 2)],
      ordering = Some [[Text], [Number]], cache = [[Number] \<mapsto> 1]\<rparr>)
   \<and> resolve is_subclass
     \<lparr>name = ''f'', funcs = [([Number], 1::nat), ([Text], 2)],
      ordering = Some [[Text], [Number]], cache = Map.empty\<rparr> [Integer]
   = (Inr 1, \<lparr>name = ''f'', funcs = [([Number], 1::nat), ([Text], 2)],
      ordering = Some [[Text], [Number]], cache = [[Integer] \<mapsto> 1]\<rparr>)"
  using
    resolve_algorithm [where issubclass = is_subclass and types = "[Text]" and f = 2 and g = 2
      and d = "\<lparr>name = ''f'', funcs = [([Number], 1::nat), ([Text], 2)],
        ordering = Some [[Text], [Number]], cache = [[Text] \<mapsto> 2]\<rparr>"]
    resolve_algorithm [where issubclass = is_subclass and types = "[Number]" and f = 1 and g = 1
      and d = "\<lparr>name = ''f'', funcs = [([Number], 1::nat), ([Text], 2)],
        ordering = Some [[Text], [Number]], cache = Map.empty\<rparr>"]
    resolve_algorithm [where issubclass = is_subclass and types = "[Integer]" and f = 1 and g = 1
      and d = "\<lparr>name = ''f'', funcs = [([Number], 1::nat), ([Text], 2)],
        ordering = Some [[Text], [Number]], cache = Map.empty\<rparr>"
      and pre = "[[Text]]" and s = "[Number]" and post = "[]"]
  by (simp add: is_subclass_def)

text \<open>
  C2, at the empty registry. A dispatcher that \<open>__init__\<close> has just created has no value
  in its slot \<open>ordering\<close>. No tuple is in its cache or among its signatures, so \<open>resolve\<close>
  reaches the loop, and reading the slot raises \<open>AttributeError\<close>: the call does not
  raise \<open>NotImplementedError\<close>.
\<close>

theorem resolve_empty_registry_AttributeError:
  "resolve issubclass (init nm) types = (Inl AttributeError, init nm)"
  by (simp add: resolve_def init_def)

text \<open>
  Once the slot holds an ordering, a tuple that is neither cached nor registered and that
  no signature of the ordering matches raises \<open>NotImplementedError\<close>.
\<close>

lemma resolve_no_match:
  assumes "cache d types = None" and "map_of (funcs d) types = None"
    and "ordering d = Some ord"
    and "\<forall>s \<in> set ord. \<not> matches issubclass (length types) types s"
  shows "resolve issubclass d types = (Inl NotImplementedError, d)"
  using assms by (simp add: resolve_def scan_no_match)

text \<open>
  C9. A call of \<open>resolve\<close> that raises, whatever the exception, returns the state it was
  given. A call that leaves the cache different from the one it was given has returned an
  implementation.
\<close>

theorem resolve_failure_atomic:
  "(fst (resolve issubclass d types) = Inl e \<longrightarrow> snd (resolve issubclass d types) = d)
   \<and> (cache (snd (resolve issubclass d types)) \<noteq> cache d
        \<longrightarrow> (\<exists>f. fst (resolve issubclass d types) = Inr f))"
proof -
  obtain r d' where r: "resolve issubclass d types = (r, d')"
    by (cases "resolve issubclass d types")
  have "d' = d" if "r = Inl e'" for e'
    using r that by (auto dest: resolve_state_on_error)
  then show ?thesis
    using r by (cases r) auto
qed

text \<open>
  With only \<open>(Text,)\<close> registered, resolving \<open>(Integer,)\<close> raises \<open>NotImplementedError\<close>
  and the state is the same; resolving \<open>(Text,)\<close> changes the cache and succeeds.
\<close>

theorem resolve_failure_atomic_witness:
  "fst (resolve is_subclass
          \<lparr>name = ''f'', funcs = [([Text], 1::nat)], ordering = Some [[Text]],
           cache = Map.empty\<rparr> [Integer]) = Inl NotImplementedError
   \<and> snd (resolve is_subclass
          \<lparr>name = ''f'', funcs = [([Text], 1::nat)], ordering = Some [[Text]],
           cache = Map.empty\<rparr> [Integer])
     = \<lparr>name = ''f'', funcs = [([Text], 1::nat)], ordering = Some [[Text]],
           cache = Map.empty\<rparr>
   \<and> cache (snd (resolve is_subclass
          \<lparr>name = ''f'', funcs = [([Text], 1::nat)], ordering = Some [[Text]],
           cache = Map.empty\<rparr> [Text])) \<noteq> Map.empty
   \<and> fst (resolve is_subclass
          \<lparr>name = ''f'', funcs = [([Text], 1::nat)], ordering = Some [[Text]],
           cache = Map.empty\<rparr> [Text]) = Inr 1"
  using
    resolve_failure_atomic [of is_subclass
      "\<lparr>name = ''f'', funcs = [([Text], 1::nat)], ordering = Some [[Text]],
        cache = Map.empty\<rparr>" "[Integer]" NotImplementedError]
    resolve_failure_atomic [of is_subclass
      "\<lparr>name = ''f'', funcs = [([Text], 1::nat)], ordering = Some [[Text]],
        cache = Map.empty\<rparr>" "[Text]"]
  by (simp add: resolve_def matches_def is_subclass_def)

section \<open>Properties of \<open>add\<close>\<close>

lemmas host_defs =
  add_def init_def Let_def conflict_spec_def ordering_spec_def ambiguities_spec_def
  ambiguous_def strictly_more_specific_def sig_le_def is_subclass_def universe_def
  resolve_def matches_def filter_error_def filter_default_def

lemma base_registry_eq:
  "base_registry =
     \<lparr>name = ''f'', funcs = [([Number, Number], 0), ([Integer, Number], 1)],
      ordering = Some [[Integer, Number], [Number, Number]], cache = Map.empty\<rparr>"
  by (simp add: base_registry_def host_defs)

lemma ambiguous_registry_eq:
  "ambiguous_registry =
     \<lparr>name = ''f'',
      funcs = [([Number, Number], 0), ([Integer, Number], 1), ([Number, Integer], 2)],
      ordering = Some [[Integer, Number], [Number, Integer], [Number, Number]],
      cache = Map.empty\<rparr>"
  by (simp add: ambiguous_registry_def base_registry_eq host_defs)

text \<open>
  C3, as the code has it. Whether \<open>add\<close> returns or raises, the registry is the old one
  with the signature mapped to the new implementation (an earlier implementation under
  that signature is replaced, the other signatures keep theirs) and the ordering is the
  value of \<open>ordering\<close> on the new registry. \<open>warn\<close> is called exactly when \<open>ambiguities\<close>
  on the new registry is not empty, and \<open>add\<close> raises exactly when the warnings filter
  turns that warning into an exception. Whenever \<open>add\<close> returns, the cache is empty.
\<close>

theorem add_postcondition:
  "map_of (funcs (snd (add cm cls_name raises d signature func)))
     = (map_of (funcs d))(signature \<mapsto> func)
   \<and> ordering (snd (add cm cls_name raises d signature func))
     = Some (ordering_fn cm (funcs (snd (add cm cls_name raises d signature func))))
   \<and> ((fst (add cm cls_name raises d signature func) \<noteq> Inr None)
        = (ambiguities_fn cm (funcs (snd (add cm cls_name raises d signature func))) \<noteq> []))
   \<and> (isl (fst (add cm cls_name raises d signature func))
        = (ambiguities_fn cm (funcs (snd (add cm cls_name raises d signature func))) \<noteq> []
           \<and> raises (AmbiguityWarning
                 (warning_text cls_name (super_signature cm) (name d)
                   (ambiguities_fn cm
                     (funcs (snd (add cm cls_name raises d signature func))))))))
   \<and> (\<not> isl (fst (add cm cls_name raises d signature func))
        \<longrightarrow> cache (snd (add cm cls_name raises d signature func)) = Map.empty)"
  by (simp add: add_def Let_def update_conv')

text \<open>
  Under a filter that raises nothing, adding \<open>(Number, Integer)\<close> to a dispatcher with
  a cache entry emits the warning, returns and leaves the cache empty.
\<close>

theorem add_postcondition_witness:
  "cache (snd (resolve is_subclass base_registry [Number, Integer])) [Number, Integer] = Some 0
   \<and> \<not> isl (fst (add host_conflict class_name filter_default
                (snd (resolve is_subclass base_registry [Number, Integer]))
                [Number, Integer] 2))
   \<and> fst (add host_conflict class_name filter_default
                (snd (resolve is_subclass base_registry [Number, Integer]))
                [Number, Integer] 2) \<noteq> Inr None
   \<and> cache (snd (add host_conflict class_name filter_default
                (snd (resolve is_subclass base_registry [Number, Integer]))
                [Number, Integer] 2)) = Map.empty"
  using add_postcondition [of host_conflict class_name filter_default
      "snd (resolve is_subclass base_registry [Number, Integer])" "[Number, Integer]" 2]
  by (simp add: base_registry_eq host_defs)

text \<open>
  C3 as it is stated fails under the filter \<open>error\<close>: the same call of \<open>add\<close> raises the
  warning, and the cache still holds the entry that the earlier resolution stored.
\<close>

theorem add_raises_counterexample:
  "fst (add host_conflict class_name filter_error
          (snd (resolve is_subclass base_registry [Number, Integer])) [Number, Integer] 2)
   = Inl (AmbiguityWarning
        (''\<newline>Ambiguities exist in dispatched function f\<newline>\<newline>''
         @ ''The following signatures may result in ambiguous behavior:\<newline>''
         @ [CHR 0x09] @ ''[int, Number], [Number, int]\<newline>''
         @ ''\<newline>\<newline>Consider making the following additions:\<newline>\<newline>''
         @ ''@dispatch(Number, Number)\<newline>def f(...)''))
   \<and> cache (snd (add host_conflict class_name filter_error
          (snd (resolve is_subclass base_registry [Number, Integer])) [Number, Integer] 2))
       [Number, Integer] = Some 0"
  by (simp add: base_registry_eq host_defs warning_text_def str_signature_def
      super_signature_spec_def common_ancestor_def)

text \<open>
  Two registrations with the conflict module after the spec, under a filter that raises
  nothing. \<open>(Integer, Number)\<close> and \<open>(Number, Integer)\<close> are ambiguous: the second \<open>add\<close>
  emits the warning and returns. \<open>(Number,)\<close> and \<open>(Integer,)\<close> are not: no warning, and
  the more specific signature comes first in the ordering.
\<close>

lemma add_ambiguous_example:
  "add host_conflict class_name filter_default
     (snd (add host_conflict class_name filter_default (init ''f'') [Integer, Number] (1::nat)))
     [Number, Integer] 2
   = (Inr (Some (AmbiguityWarning
        (''\<newline>Ambiguities exist in dispatched function f\<newline>\<newline>''
         @ ''The following signatures may result in ambiguous behavior:\<newline>''
         @ [CHR 0x09] @ ''[int, Number], [Number, int]\<newline>''
         @ ''\<newline>\<newline>Consider making the following additions:\<newline>\<newline>''
         @ ''@dispatch(Number, Number)\<newline>def f(...)''))),
      \<lparr>name = ''f'', funcs = [([Integer, Number], 1), ([Number, Integer], 2)],
       ordering = Some [[Integer, Number], [Number, Integer]], cache = Map.empty\<rparr>)"
  by (simp add: host_defs warning_text_def str_signature_def super_signature_spec_def
      common_ancestor_def)

lemma add_unambiguous_example:
  "add host_conflict class_name filter_default
     (snd (add host_conflict class_name filter_default (init ''f'') [Number] (1::nat)))
     [Integer] 2
   = (Inr None,
      \<lparr>name = ''f'', funcs = [([Number], 1), ([Integer], 2)],
       ordering = Some [[Integer], [Number]], cache = Map.empty\<rparr>)"
  by (simp add: host_defs)

section \<open>Properties of \<open>__call__\<close>\<close>

text \<open>
  C8. \<open>__call__\<close> resolves the tuple of the runtime types of its positional arguments.
  When \<open>resolve\<close> raises, the call raises the same exception. When \<open>resolve\<close> returns an
  implementation, the implementation is applied to the original arguments: the call
  returns the value that it returns and raises the exception that it raises.
\<close>

theorem call_convention:
  "(resolve issubclass d (map type_of args) = (Inl e, d')
      \<longrightarrow> call type_of issubclass d args kwargs = (Inl (Inl e), d'))
   \<and> (resolve issubclass d (map type_of args) = (Inr func, d')
      \<longrightarrow> (\<forall>v. func args kwargs = Inr v
              \<longrightarrow> call type_of issubclass d args kwargs = (Inr v, d'))
        \<and> (\<forall>x. func args kwargs = Inl x
              \<longrightarrow> call type_of issubclass d args kwargs = (Inl (Inr x), d')))"
  by (simp add: call_def)

text \<open>
  The implementation \<open>x + 1\<close> registered for \<open>(Integer,)\<close> and for \<open>(Text,)\<close>: the call
  on \<open>3\<close> returns \<open>4\<close>, the call on a string raises the exception of the implementation,
  and the call on two arguments raises the exception of \<open>resolve\<close>.
\<close>

theorem call_convention_witness:
  "call type_of_val is_subclass
     \<lparr>name = ''f'', funcs = [([Integer], inc), ([Text], inc)],
      ordering = Some [[Integer], [Text]], cache = Map.empty\<rparr> [IntV 3] []
   = (Inr (IntV 4), \<lparr>name = ''f'', funcs = [([Integer], inc), ([Text], inc)],
      ordering = Some [[Integer], [Text]], cache = [[Integer] \<mapsto> inc]\<rparr>)
   \<and> call type_of_val is_subclass
     \<lparr>name = ''f'', funcs = [([Integer], inc), ([Text], inc)],
      ordering = Some [[Integer], [Text]], cache = Map.empty\<rparr> [TextV ''s''] []
   = (Inl (Inr ''TypeError''), \<lparr>name = ''f'', funcs = [([Integer], inc), ([Text], inc)],
      ordering = Some [[Integer], [Text]], cache = [[Text] \<mapsto> inc]\<rparr>)
   \<and> call type_of_val is_subclass
     \<lparr>name = ''f'', funcs = [([Integer], inc), ([Text], inc)],
      ordering = Some [[Integer], [Text]], cache = Map.empty\<rparr> [IntV 3, IntV 4] []
   = (Inl (Inl NotImplementedError), \<lparr>name = ''f'', funcs = [([Integer], inc), ([Text], inc)],
      ordering = Some [[Integer], [Text]], cache = Map.empty\<rparr>)"
  using
    call_convention [where issubclass = is_subclass and type_of = type_of_val
      and d = "\<lparr>name = ''f'', funcs = [([Integer], inc), ([Text], inc)],
        ordering = Some [[Integer], [Text]], cache = Map.empty\<rparr>"
      and args = "[IntV 3]" and kwargs = "[]" and func = inc
      and d' = "\<lparr>name = ''f'', funcs = [([Integer], inc), ([Text], inc)],
        ordering = Some [[Integer], [Text]], cache = [[Integer] \<mapsto> inc]\<rparr>"]
    call_convention [where issubclass = is_subclass and type_of = type_of_val
      and d = "\<lparr>name = ''f'', funcs = [([Integer], inc), ([Text], inc)],
        ordering = Some [[Integer], [Text]], cache = Map.empty\<rparr>"
      and args = "[TextV ''s'']" and kwargs = "[]" and func = inc
      and d' = "\<lparr>name = ''f'', funcs = [([Integer], inc), ([Text], inc)],
        ordering = Some [[Integer], [Text]], cache = [[Text] \<mapsto> inc]\<rparr>"]
    call_convention [where issubclass = is_subclass and type_of = type_of_val
      and d = "\<lparr>name = ''f'', funcs = [([Integer], inc), ([Text], inc)],
        ordering = Some [[Integer], [Text]], cache = Map.empty\<rparr>"
      and args = "[IntV 3, IntV 4]" and kwargs = "[]" and e = NotImplementedError
      and d' = "\<lparr>name = ''f'', funcs = [([Integer], inc), ([Text], inc)],
        ordering = Some [[Integer], [Text]], cache = Map.empty\<rparr>"]
  by (simp add: resolve_def matches_def is_subclass_def inc_def)

text \<open>
  C10. The keyword arguments take no part in the resolution: for given positional
  arguments, either \<open>resolve\<close> raises and every call raises that exception, or \<open>resolve\<close>
  returns one implementation and one new state, and every call, whatever its keyword
  arguments, applies that implementation to the positional arguments and to its own
  keyword arguments, unchanged.
\<close>

theorem call_ignores_kwargs:
  "(\<exists>e. resolve issubclass d (map type_of args) = (Inl e, d)
        \<and> (\<forall>kwargs. call type_of issubclass d args kwargs = (Inl (Inl e), d)))
   \<or> (\<exists>func d'. resolve issubclass d (map type_of args) = (Inr func, d')
        \<and> (\<forall>kwargs. call type_of issubclass d args kwargs
                       = (case func args kwargs of Inl x \<Rightarrow> Inl (Inr x) | Inr v \<Rightarrow> Inr v, d')))"
proof -
  obtain r d' where r: "resolve issubclass d (map type_of args) = (r, d')"
    by (cases "resolve issubclass d (map type_of args)")
  show ?thesis
  proof (cases r)
    case (Inl e)
    with r have "d' = d"
      by (auto simp: resolve_def split: option.splits dest: scan_state_on_error)
    with r Inl show ?thesis by (simp add: call_def)
  next
    case (Inr func)
    with r show ?thesis by (auto simp: call_def split: sum.splits)
  qed
qed

section \<open>The probes\<close>

text \<open>The instrumented methods compute what the methods compute.\<close>

lemma all_issubclass_probed_fst:
  "fst (all_issubclass_probed issubclass ts ss) = list_all (\<lambda>(t, s). issubclass t s) (zip ts ss)"
  by (induction issubclass ts ss rule: all_issubclass_probed.induct) (auto split: prod.splits)

lemma matches_probed_fst:
  "fst (matches_probed issubclass n ts ss) = matches issubclass n ts ss"
  by (simp add: matches_probed_def matches_def all_issubclass_probed_fst)

lemma scan_probed_fst:
  "fst (scan_probed issubclass d types ord) = scan issubclass d types ord"
proof (induction ord)
  case Nil
  then show ?case by simp
next
  case (Cons s ord)
  obtain b q where m: "matches_probed issubclass (length types) types s = (b, q)"
    by (cases "matches_probed issubclass (length types) types s")
  then have "matches issubclass (length types) types s = b"
    using matches_probed_fst [of issubclass "length types" types s] by simp
  with m Cons show ?case
    by (cases b) (auto split: prod.splits)
qed

lemma resolve_probed_fst:
  "fst (resolve_probed issubclass d types) = resolve issubclass d types"
  by (simp add: resolve_probed_def resolve_def scan_probed_fst split: option.splits)

lemma resolve_state_on_success:
  "resolve issubclass d types = (Inr f, d') \<Longrightarrow> d' = d\<lparr>cache := (cache d)(types \<mapsto> f)\<rparr>"
  by (auto simp: resolve_def map_upd_triv split: option.splits dest: scan_state_on_success)

text \<open>
  C6. When \<open>resolve\<close> has returned an implementation for a tuple, resolving the tuple
  again in the state it left returns the same implementation and the same state, and
  that second call visits no entry of the ordering and makes no call of \<open>issubclass\<close>.
\<close>

theorem cache_transparency:
  assumes "resolve issubclass d types = (Inr f, d1)"
  shows "resolve issubclass d1 types = (Inr f, d1)
         \<and> resolve_probed issubclass d1 types = ((Inr f, d1), 0, 0)"
proof -
  from assms have "d1 = d\<lparr>cache := (cache d)(types \<mapsto> f)\<rparr>"
    by (rule resolve_state_on_success)
  then have "cache d1 types = Some f" by simp
  then show ?thesis
    by (simp add: resolve_def resolve_probed_def)
qed

text \<open>
  With \<open>(Number,)\<close> registered, the first resolution of \<open>(Integer,)\<close> visits one entry
  of the ordering and asks the oracle once; the second one does neither.
\<close>

theorem cache_transparency_witness:
  "resolve is_subclass
     \<lparr>name = ''f'', funcs = [([Number], 1::nat)], ordering = Some [[Number]],
      cache = Map.empty\<rparr> [Integer]
   = (Inr 1, \<lparr>name = ''f'', funcs = [([Number], 1::nat)], ordering = Some [[Number]],
      cache = [[Integer] \<mapsto> 1]\<rparr>)
   \<and> snd (resolve_probed is_subclass
     \<lparr>name = ''f'', funcs = [([Number], 1::nat)], ordering = Some [[Number]],
      cache = Map.empty\<rparr> [Integer]) = (1, 1)
   \<and> resolve is_subclass
     \<lparr>name = ''f'', funcs = [([Number], 1::nat)], ordering = Some [[Number]],
      cache = [[Integer] \<mapsto> 1]\<rparr> [Integer]
   = (Inr 1, \<lparr>name = ''f'', funcs = [([Number], 1::nat)], ordering = Some [[Number]],
      cache = [[Integer] \<mapsto> 1]\<rparr>)
   \<and> resolve_probed is_subclass
     \<lparr>name = ''f'', funcs = [([Number], 1::nat)], ordering = Some [[Number]],
      cache = [[Integer] \<mapsto> 1]\<rparr> [Integer]
   = ((Inr 1, \<lparr>name = ''f'', funcs = [([Number], 1::nat)], ordering = Some [[Number]],
      cache = [[Integer] \<mapsto> 1]\<rparr>), 0, 0)"
  using cache_transparency
    [of is_subclass "\<lparr>name = ''f'', funcs = [([Number], 1::nat)], ordering = Some [[Number]],
      cache = Map.empty\<rparr>" "[Integer]" 1
      "\<lparr>name = ''f'', funcs = [([Number], 1::nat)], ordering = Some [[Number]],
      cache = [[Integer] \<mapsto> 1]\<rparr>"]
  by (simp add: resolve_def resolve_probed_def matches_def matches_probed_def is_subclass_def)

section \<open>The cache after a call of \<open>add\<close> that raises\<close>

text \<open>
  C4, at a call of \<open>add\<close> that raises. \<open>(Number, Number)\<close> and \<open>(Integer, Number)\<close> are
  registered and the tuple \<open>(Number, Integer)\<close> resolves to the implementation \<open>0\<close> of
  \<open>(Number, Number)\<close>, which is cached. Under the filter \<open>error\<close>, \<open>add\<close> then registers
  \<open>(Number, Integer)\<close> with the implementation \<open>2\<close>, a strictly more specific match of
  the tuple; the signature is ambiguous with \<open>(Integer, Number)\<close>, so \<open>warn\<close> raises
  before the cache is cleared. The registry maps the signature to \<open>2\<close>, and the next
  resolution of the tuple still returns the cached \<open>0\<close>.
\<close>

theorem stale_cache_after_raising_add:
  "fst (resolve is_subclass base_registry [Number, Integer]) = Inr 0
   \<and> isl (fst (add host_conflict class_name filter_error
               (snd (resolve is_subclass base_registry [Number, Integer]))
               [Number, Integer] 2))
   \<and> map_of (funcs (snd (add host_conflict class_name filter_error
               (snd (resolve is_subclass base_registry [Number, Integer]))
               [Number, Integer] 2))) [Number, Integer] = Some 2
   \<and> fst (resolve is_subclass
            (snd (add host_conflict class_name filter_error
                   (snd (resolve is_subclass base_registry [Number, Integer]))
                   [Number, Integer] 2))
            [Number, Integer]) = Inr 0"
  by (simp add: base_registry_eq host_defs)

text \<open>
  C5, after a call of \<open>add\<close> that raises. In a registry with an ambiguous pair, every
  call of \<open>add\<close> under the filter \<open>error\<close> raises before it clears the cache. \<open>(Number,)\<close>
  is registered with the implementation \<open>3\<close>, \<open>(Integer,)\<close> resolves to it and is
  cached, and \<open>(Integer,)\<close> is registered with the implementation \<open>4\<close>. Both signatures
  are registered, and resolving \<open>(Integer,)\<close> returns \<open>3\<close>, the implementation of
  \<open>(Number,)\<close>.
\<close>

theorem specificity_lost_after_raising_add:
  "is_subclass Integer Number
   \<and> map_of (funcs (snd (add host_conflict class_name filter_error
        (snd (resolve is_subclass
               (snd (add host_conflict class_name filter_error ambiguous_registry [Number] 3))
               [Integer]))
        [Integer] 4))) [Number] = Some 3
   \<and> map_of (funcs (snd (add host_conflict class_name filter_error
        (snd (resolve is_subclass
               (snd (add host_conflict class_name filter_error ambiguous_registry [Number] 3))
               [Integer]))
        [Integer] 4))) [Integer] = Some 4
   \<and> fst (resolve is_subclass
        (snd (add host_conflict class_name filter_error
          (snd (resolve is_subclass
                 (snd (add host_conflict class_name filter_error ambiguous_registry [Number] 3))
                 [Integer]))
          [Integer] 4))
        [Integer]) = Inr 3"
  by (simp add: ambiguous_registry_eq host_defs)

text \<open>
  Where the cache holds no other implementation for the tuple, and so after every call
  of \<open>add\<close> that returns, the implementation registered for \<open>(integer,)\<close> is the one
  that \<open>resolve\<close> returns.
\<close>

lemma add_returns_state:
  assumes "\<not> isl (fst (add cm cls_name raises d signature func))"
  shows "snd (add cm cls_name raises d signature func)
         = d\<lparr>funcs := AList.update signature func (funcs d),
              ordering := Some (ordering_fn cm (AList.update signature func (funcs d))),
              cache := Map.empty\<rparr>"
  using assms by (simp add: add_def Let_def split: if_splits)

lemma specificity_wins_uncached:
  assumes "map_of (funcs d) [integer] = Some f_integer"
    and "cache d [integer] = None \<or> cache d [integer] = Some f_integer"
  shows "fst (resolve issubclass d [integer]) = Inr f_integer"
  using assms by (auto simp: resolve_def)

lemma specificity_wins_after_returning_add:
  assumes "\<not> isl (fst (add cm cls_name raises d [integer] f_integer))"
  shows "fst (resolve issubclass (snd (add cm cls_name raises d [integer] f_integer)) [integer])
         = Inr f_integer"
  using assms by (simp add: add_returns_state resolve_def update_conv')

section \<open>Resolution after a call of \<open>add\<close> that returns\<close>

text \<open>
  For a transitive oracle, the ordering after the spec holds the registered signatures,
  the strictly more specific ones first.
\<close>

lemma sig_le_trans:
  assumes "transp issubclass" and "sig_le issubclass x y" and "sig_le issubclass y z"
  shows "sig_le issubclass x z"
proof -
  have "list_all2 issubclass x z"
    using assms list_all2_trans [of issubclass issubclass issubclass x y z]
    by (auto simp: sig_le_def dest: transpD)
  with assms show ?thesis by (simp add: sig_le_def)
qed

lemma strictly_more_specific_trans:
  assumes "transp issubclass"
    and "strictly_more_specific issubclass x y" and "strictly_more_specific issubclass y z"
  shows "strictly_more_specific issubclass x z"
  using assms sig_le_trans [of issubclass x y z] sig_le_trans [of issubclass z x y]
  unfolding strictly_more_specific_def by blast

lemma set_insert_signature:
  "set (insert_signature issubclass s xs) = insert s (set xs)"
  by (induction xs) auto

lemma linearized_insert_signature:
  assumes tr: "transp issubclass"
  shows "linearized issubclass xs \<Longrightarrow> linearized issubclass (insert_signature issubclass s xs)"
proof (induction xs)
  case Nil
  then show ?case by simp
next
  case (Cons x xs)
  show ?case
  proof (cases "strictly_more_specific issubclass s x")
    case True
    have "\<not> strictly_more_specific issubclass y s" if "y \<in> set (x # xs)" for y
    proof
      assume ys: "strictly_more_specific issubclass y s"
      show False
      proof (cases "y = x")
        case True
        with ys \<open>strictly_more_specific issubclass s x\<close> show False
          by (auto simp: strictly_more_specific_def)
      next
        case False
        with that have "y \<in> set xs" by simp
        moreover from ys \<open>strictly_more_specific issubclass s x\<close>
        have "strictly_more_specific issubclass y x"
          by (rule strictly_more_specific_trans [OF tr])
        ultimately show False using Cons.prems by simp
      qed
    qed
    with True Cons.prems show ?thesis by simp
  next
    case False
    with Cons show ?thesis by (simp add: set_insert_signature)
  qed
qed

lemma ordering_spec_valid:
  assumes tr: "transp issubclass"
  shows "valid_ordering issubclass fs (ordering_spec issubclass fs)"
proof -
  have "set (foldl (\<lambda>placed s. insert_signature issubclass s placed) acc ss) = set acc \<union> set ss
        \<and> (linearized issubclass acc
             \<longrightarrow> linearized issubclass (foldl (\<lambda>placed s. insert_signature issubclass s placed) acc ss))"
    for acc ss
    by (induction ss arbitrary: acc)
       (auto simp: set_insert_signature linearized_insert_signature [OF tr])
  from this [of "[]" "map fst fs"] show ?thesis
    by (simp add: valid_ordering_def ordering_spec_def)
qed

text \<open>
  After a call of \<open>add\<close> that returns, with a signature that matches the tuple and is
  strictly more specific than every other registered signature that \<open>resolve\<close> can
  select for it, and with a value of \<open>ordering\<close> that holds the registered signatures,
  the strictly more specific ones first, the tuple resolves to the new implementation.
\<close>

lemma matches_sig_le:
  "matches issubclass (length a) a b \<longleftrightarrow> sig_le issubclass a b"
  by (auto simp: matches_def sig_le_def list_all2_iff list_all_iff)

lemma linearized_append:
  "linearized issubclass (xs @ y # ys)
   \<Longrightarrow> \<forall>x \<in> set xs. \<not> strictly_more_specific issubclass y x"
  by (induction xs) auto

lemma resolve_after_returning_add:
  fixes d d' :: "('ty, 'impl) dispatcher" and cm :: "('ty, 'impl) conflict"
    and cls_name :: "'ty \<Rightarrow> string" and issubclass :: "'ty \<Rightarrow> 'ty \<Rightarrow> bool"
    and raises :: "warning \<Rightarrow> bool" and types signature :: "'ty list" and f_new :: 'impl
  defines "d' \<equiv> snd (add cm cls_name raises d signature f_new)"
  assumes returns: "\<not> isl (fst (add cm cls_name raises d signature f_new))"
    and ord: "valid_ordering issubclass (funcs d') (ordering_fn cm (funcs d'))"
    and m: "matches issubclass (length types) types signature"
    and strict: "\<forall>s \<in> set (map fst (funcs d)).
                   s \<noteq> signature \<and> candidate issubclass types s
                   \<longrightarrow> strictly_more_specific issubclass signature s"
  shows "resolve issubclass d' types = (Inr f_new, d'\<lparr>cache := [types \<mapsto> f_new]\<rparr>)"
proof -
  have d': "d' = d\<lparr>funcs := AList.update signature f_new (funcs d),
              ordering := Some (ordering_fn cm (AList.update signature f_new (funcs d))),
              cache := Map.empty\<rparr>"
    unfolding d'_def using returns by (rule add_returns_state)
  have funcs2: "funcs d' = AList.update signature f_new (funcs d)"
    and ord': "ordering d' = Some (ordering_fn cm (funcs d'))"
    and cache2: "cache d' = Map.empty"
    by (simp_all add: d')
  have new: "map_of (funcs d') signature = Some f_new"
    by (simp add: funcs2 update_conv')
  have keys2: "set (map fst (funcs d')) = insert signature (set (map fst (funcs d)))"
    by (simp add: funcs2 update_keys) (auto simp: image_iff)
  have less: "strictly_more_specific issubclass signature s"
    if "s \<in> set (map fst (funcs d'))" "s \<noteq> signature" "candidate issubclass types s" for s
    using that strict keys2 by auto
  show ?thesis
  proof (cases "types = signature")
    case True
    with new cache2 show ?thesis by (simp add: resolve_def)
  next
    case False
    have unreg: "map_of (funcs d') types = None"
    proof (rule ccontr)
      assume "map_of (funcs d') types \<noteq> None"
      then have "types \<in> set (map fst (funcs d'))"
        by (auto simp: map_of_eq_None_iff)
      with False have "strictly_more_specific issubclass signature types"
        by (intro less) (auto simp: candidate_def)
      with m show False
        by (simp add: strictly_more_specific_def matches_sig_le)
    qed
    have "signature \<in> set (ordering_fn cm (funcs d'))"
      using ord keys2 by (simp add: valid_ordering_def)
    then obtain pre post where split: "ordering_fn cm (funcs d') = pre @ signature # post"
      and first: "signature \<notin> set pre"
      by (auto dest: split_list_first)
    have "\<not> matches issubclass (length types) types s'" if "s' \<in> set pre" for s'
    proof
      assume ms': "matches issubclass (length types) types s'"
      from that first have ne: "s' \<noteq> signature" by auto
      from that split ord have "s' \<in> set (map fst (funcs d'))"
        by (auto simp: valid_ordering_def)
      with ne ms' have "strictly_more_specific issubclass signature s'"
        by (intro less) (auto simp: candidate_def)
      moreover from ord split that have "\<not> strictly_more_specific issubclass signature s'"
        using linearized_append [of issubclass pre signature post]
        by (simp add: valid_ordering_def)
      ultimately show False by simp
    qed
    then have "scan issubclass d' types (pre @ signature # post)
               = (Inr f_new, d'\<lparr>cache := (cache d')(types \<mapsto> f_new)\<rparr>)"
      using m new by (intro scan_first_match) auto
    with unreg cache2 ord' split show ?thesis
      by (simp add: resolve_def)
  qed
qed

text \<open>
  With the ordering after the spec, it is enough that the new signature is strictly
  more specific than the signature that the scan selected for the tuple before.
\<close>

lemma insert_signature_before_selected:
  assumes "\<forall>s' \<in> set pre. \<not> matches issubclass n types s'"
    and "strictly_more_specific issubclass s_new s_old"
  shows "\<exists>pre' post'. insert_signature issubclass s_new (pre @ s_old # post) = pre' @ s_new # post'
           \<and> (\<forall>s' \<in> set pre'. \<not> matches issubclass n types s')"
  using assms
proof (induction pre)
  case Nil
  then have "insert_signature issubclass s_new ([] @ s_old # post) = [] @ s_new # s_old # post"
    by simp
  then show ?case by (metis empty_iff empty_set)
next
  case (Cons x pre)
  show ?case
  proof (cases "strictly_more_specific issubclass s_new x")
    case True
    then have "insert_signature issubclass s_new ((x # pre) @ s_old # post)
               = [] @ s_new # x # pre @ s_old # post"
      by simp
    then show ?thesis by (metis empty_iff empty_set)
  next
    case False
    from Cons obtain pre' post' where
      "insert_signature issubclass s_new (pre @ s_old # post) = pre' @ s_new # post'"
      "\<forall>s' \<in> set pre'. \<not> matches issubclass n types s'"
      by auto
    with False Cons.prems have
      "insert_signature issubclass s_new ((x # pre) @ s_old # post) = (x # pre') @ s_new # post'
       \<and> (\<forall>s' \<in> set (x # pre'). \<not> matches issubclass n types s')"
      by simp
    then show ?thesis by blast
  qed
qed

lemma ordering_spec_new_key:
  assumes "signature \<notin> set (map fst fs)"
  shows "ordering_spec issubclass (AList.update signature func fs)
         = insert_signature issubclass signature (ordering_spec issubclass fs)"
proof -
  have "AList.update signature func fs = fs @ [(signature, func)]"
    using assms by (induction fs) auto
  then show ?thesis by (simp add: ordering_spec_def)
qed

lemma resolve_after_returning_add_spec:
  fixes d d' :: "('ty, 'impl) dispatcher" and cm :: "('ty, 'impl) conflict"
    and cls_name :: "'ty \<Rightarrow> string" and issubclass :: "'ty \<Rightarrow> 'ty \<Rightarrow> bool"
    and raises :: "warning \<Rightarrow> bool" and types signature :: "'ty list" and f_new :: 'impl
  defines "d' \<equiv> snd (add cm cls_name raises d signature f_new)"
  assumes returns: "\<not> isl (fst (add cm cls_name raises d signature f_new))"
    and cm: "ordering_fn cm = ordering_spec issubclass"
    and ord: "ordering d = Some (ordering_spec issubclass (funcs d))"
    and new_key: "signature \<notin> set (map fst (funcs d))"
    and unreg: "map_of (funcs d) types = None"
    and selected: "ordering_spec issubclass (funcs d) = pre @ s_old # post"
      "\<forall>s' \<in> set pre. \<not> matches issubclass (length types) types s'"
      "matches issubclass (length types) types s_old"
    and m: "matches issubclass (length types) types signature"
    and strict: "strictly_more_specific issubclass signature s_old"
  shows "resolve issubclass d' types = (Inr f_new, d'\<lparr>cache := [types \<mapsto> f_new]\<rparr>)"
proof -
  have d': "d' = d\<lparr>funcs := AList.update signature f_new (funcs d),
              ordering := Some (ordering_fn cm (AList.update signature f_new (funcs d))),
              cache := Map.empty\<rparr>"
    unfolding d'_def using returns by (rule add_returns_state)
  have new: "map_of (funcs d') signature = Some f_new"
    by (simp add: d' update_conv')
  have cache2: "cache d' = Map.empty" by (simp add: d')
  have ord': "ordering d' = Some (insert_signature issubclass signature (pre @ s_old # post))"
    using ordering_spec_new_key [OF new_key, of issubclass f_new] selected(1)
    by (simp add: d' cm)
  from insert_signature_before_selected [OF selected(2) strict, of post]
  obtain pre' post' where split:
    "insert_signature issubclass signature (pre @ s_old # post) = pre' @ signature # post'"
    and none: "\<forall>s' \<in> set pre'. \<not> matches issubclass (length types) types s'"
    by blast
  show ?thesis
  proof (cases "types = signature")
    case True
    with new cache2 show ?thesis by (simp add: resolve_def)
  next
    case False
    with unreg have unreg': "map_of (funcs d') types = None"
      by (simp add: d' update_conv')
    from none m new have "scan issubclass d' types (pre' @ signature # post')
               = (Inr f_new, d'\<lparr>cache := (cache d')(types \<mapsto> f_new)\<rparr>)"
      by (intro scan_first_match) auto
    with unreg' cache2 ord' split show ?thesis
      by (simp add: resolve_def)
  qed
qed

section \<open>Arity isolation\<close>

lemma set_update_subset:
  "set (AList.update k v al) \<subseteq> insert (k, v) (set al)"
  by (induction al) auto

lemma cache_fromD:
  "cache_from issubclass h d \<Longrightarrow> cache d types = Some f
   \<Longrightarrow> \<exists>s. (s, f) \<in> set h \<and> candidate issubclass types s"
  unfolding cache_from_def by blast

lemma scan_success_origin:
  "scan issubclass d types ord = (Inr f, d')
   \<Longrightarrow> \<exists>s \<in> set ord. matches issubclass (length types) types s \<and> map_of (funcs d) s = Some f"
  by (induction ord) (auto split: if_splits option.splits)

lemma resolve_success_origin:
  assumes "resolve issubclass d types = (Inr f, d')"
  shows "cache d types = Some f
         \<or> (cache d types = None
            \<and> (\<exists>s. map_of (funcs d) s = Some f \<and> candidate issubclass types s))"
  using assms
  by (auto simp: resolve_def candidate_def split: option.splits dest: scan_success_origin)

lemma cache_from_init: "cache_from issubclass [] (init nm)"
  by (simp add: cache_from_def init_def)

lemma cache_from_add:
  assumes "cache_from issubclass h d"
  shows "cache_from issubclass ((signature, func) # h)
           (snd (add cm cls_name raises d signature func))"
proof -
  have funcs: "set (AList.update signature func (funcs d)) \<subseteq> set ((signature, func) # h)"
    using set_update_subset [of signature func "funcs d"] assms
    by (auto simp: cache_from_def)
  have entries: "\<exists>s. (s, f) \<in> set ((signature, func) # h) \<and> candidate issubclass types s"
    if "cache d types = Some f" for types f
    using cache_fromD [OF assms that] by auto
  show ?thesis
    unfolding cache_from_def add_def Let_def
    using funcs entries by auto
qed

lemma cache_from_resolve:
  assumes "cache_from issubclass h d"
  shows "cache_from issubclass h (snd (resolve issubclass d types))"
proof -
  obtain r d' where r: "resolve issubclass d types = (r, d')"
    by (cases "resolve issubclass d types")
  show ?thesis
  proof (cases r)
    case (Inl e)
    with r have "d' = d" by (auto dest: resolve_state_on_error)
    with r assms show ?thesis by simp
  next
    case (Inr f)
    with r have d': "d' = d\<lparr>cache := (cache d)(types \<mapsto> f)\<rparr>"
      by (auto dest: resolve_state_on_success)
    have origin: "\<exists>s. (s, f) \<in> set h \<and> candidate issubclass types s"
    proof -
      from r Inr consider "cache d types = Some f"
        | s where "map_of (funcs d) s = Some f" "candidate issubclass types s"
        using resolve_success_origin [of issubclass d types f d'] by blast
      then show ?thesis
      proof cases
        case 1
        then show ?thesis by (rule cache_fromD [OF assms])
      next
        case 2
        from 2(1) have "(s, f) \<in> set (funcs d)" by (rule map_of_SomeD)
        with assms 2(2) show ?thesis by (auto simp: cache_from_def)
      qed
    qed
    have "\<exists>s. (s, g) \<in> set h \<and> candidate issubclass ts s" if "cache d' ts = Some g" for ts g
    proof (cases "ts = types")
      case True
      with that d' have "g = f" by simp
      with origin True show ?thesis by simp
    next
      case False
      with that d' have "cache d ts = Some g" by simp
      then show ?thesis by (rule cache_fromD [OF assms])
    qed
    moreover from assms d' have "set (funcs d') \<subseteq> set h"
      by (simp add: cache_from_def)
    ultimately show ?thesis
      using r unfolding cache_from_def by simp
  qed
qed

lemma reachable_cache_from:
  "reachable cm cls_name issubclass d h \<Longrightarrow> cache_from issubclass h d"
  by (induction rule: reachable.induct)
     (simp_all add: cache_from_init cache_from_add cache_from_resolve)

text \<open>
  C7. In every state that a dispatcher can reach, calls of \<open>add\<close> that raise included,
  an implementation that \<open>resolve\<close> returns for a tuple has been registered for a
  signature of the length of the tuple: the tuple itself, or a signature that dominates
  it position by position. When the tuple is not in the cache, that signature is
  registered with the implementation in the state at hand. So a signature of another
  length is never the one that a resolution selects, at the call or through the cache.
\<close>

theorem arity_isolation:
  assumes "reachable cm cls_name issubclass d h"
    and "fst (resolve issubclass d types) = Inr f"
  shows "(\<exists>s. (s, f) \<in> set h \<and> length s = length types
              \<and> (s = types \<or> (\<forall>i < length types. issubclass (types ! i) (s ! i))))
         \<and> (cache d types = None
              \<longrightarrow> (\<exists>s. map_of (funcs d) s = Some f \<and> length s = length types
                       \<and> (s = types \<or> (\<forall>i < length types. issubclass (types ! i) (s ! i)))))"
proof -
  from assms(1) have inv: "cache_from issubclass h d" by (rule reachable_cache_from)
  obtain d' where r: "resolve issubclass d types = (Inr f, d')"
    using assms(2) by (cases "resolve issubclass d types") auto
  have len: "length s = length types
             \<and> (s = types \<or> (\<forall>i < length types. issubclass (types ! i) (s ! i)))"
    if "candidate issubclass types s" for s
    using that by (auto simp: candidate_def matches_iff_pointwise)
  from r consider "cache d types = Some f"
    | s where "cache d types = None" "map_of (funcs d) s = Some f" "candidate issubclass types s"
    using resolve_success_origin [of issubclass d types f d'] by blast
  then show ?thesis
  proof cases
    case 1
    from cache_fromD [OF inv 1] len 1 show ?thesis by auto
  next
    case 2
    from 2(2) have "(s, f) \<in> set (funcs d)" by (rule map_of_SomeD)
    with inv have "(s, f) \<in> set h" by (auto simp: cache_from_def)
    with 2 len [OF 2(3)] show ?thesis by blast
  qed
qed

text \<open>
  A state with a stale cache: \<open>(Integer,)\<close> was resolved to the implementation \<open>3\<close> of
  \<open>(Number,)\<close>, and a call of \<open>add\<close> that raised has replaced that implementation by
  \<open>5\<close>. The next resolution returns \<open>3\<close>, which was registered for \<open>(Number,)\<close>, a
  signature of length one.
\<close>

theorem arity_isolation_witness:
  "reachable host_conflict class_name is_subclass
     (snd (add host_conflict class_name filter_error
        (snd (resolve is_subclass
               (snd (add host_conflict class_name filter_error ambiguous_registry [Number] 3))
               [Integer]))
        [Number] 5))
     [([Number], 5), ([Number], 3), ([Number, Integer], 2), ([Integer, Number], 1),
      ([Number, Number], 0)]
   \<and> fst (resolve is_subclass
        (snd (add host_conflict class_name filter_error
          (snd (resolve is_subclass
                 (snd (add host_conflict class_name filter_error ambiguous_registry [Number] 3))
                 [Integer]))
          [Number] 5))
        [Integer]) = Inr 3
   \<and> (\<exists>s. (s, 3) \<in> set [([Number], 5), ([Number], 3), ([Number, Integer], 2),
                          ([Integer, Number], 1), ([Number, Number], 0::nat)]
          \<and> length s = length [Integer]
          \<and> (s = [Integer] \<or> (\<forall>i < length [Integer]. is_subclass ([Integer] ! i) (s ! i))))"
proof -
  have r: "reachable host_conflict class_name is_subclass
     (snd (add host_conflict class_name filter_error
        (snd (resolve is_subclass
               (snd (add host_conflict class_name filter_error ambiguous_registry [Number] 3))
               [Integer]))
        [Number] 5))
     [([Number], 5), ([Number], 3), ([Number, Integer], 2), ([Integer, Number], 1),
      ([Number, Number], 0)]"
    unfolding ambiguous_registry_def base_registry_def
    by (intro reach_add reach_resolve reach_init)
  have s: "fst (resolve is_subclass
        (snd (add host_conflict class_name filter_error
          (snd (resolve is_subclass
                 (snd (add host_conflict class_name filter_error ambiguous_registry [Number] 3))
                 [Integer]))
          [Number] 5))
        [Integer]) = Inr 3"
    by (simp add: ambiguous_registry_eq host_defs)
  from r s arity_isolation [OF r s] show ?thesis
    by blast
qed

end
